theory Spec2Isabelle
  imports Complex_Main "HOL-Library.Sublist" "HOL-Library.AList" "HOL-Library.Multiset"
begin

section \<open>Tokens, trees and errors of the JME runtime\<close>

text \<open>
  The file \<^verbatim>\<open>numbas-runtime.js\<close> implements the JME expression language. A token
  is a JavaScript object with a \<^verbatim>\<open>type\<close> tag; the constructors below are the
  token classes of \<^verbatim>\<open>Numbas.jme.types\<close> with the fields the modelled functions read.

  A number token holds a JavaScript number or a complex pair. A decimal literal is
  modelled as the rational number it spells (binary rounding by \<^verbatim>\<open>parseFloat\<close> is not
  modelled); the members of \<^verbatim>\<open>jme.constants\<close> are kept symbolic.
\<close>

datatype constname = ConstE | ConstPi | ConstI | ConstInfinity

datatype numval = NReal rat | NConst constname

datatype token =
    TNum numval
  | TString string bool
  | TBool bool
  | TName string "string list option" bool
  | TList nat "token list option"
  | TDict "(string \<times> token) list option"
  | TRange nat "rat list"
  | TOp string bool bool
  | TFunc string nat
  | TPunc string
  | TKeyPair string

text \<open>
  Fields: \<open>TString value safe\<close>; \<open>TName name annotation unboundName\<close>;
  \<open>TList vars value\<close>, where \<open>value\<close> is \<open>None\<close> for a list literal that has not
  been evaluated yet; \<open>TRange id value\<close> where \<open>id\<close> stands for the identity of the
  value array (JavaScript compares arrays by identity); \<open>TOp name postfix prefix\<close>;
  \<open>TFunc name vars\<close>; \<open>TPunc kind\<close>, whose type tag is the punctuation character
  itself. The token classes that the modelled functions do not inspect (sets, vectors,
  matrices, HTML, embedded expressions) are left out.
\<close>

fun type_of :: "token \<Rightarrow> string" where
  "type_of (TNum _) = ''number''"
| "type_of (TString _ _) = ''string''"
| "type_of (TBool _) = ''boolean''"
| "type_of (TName _ _ _) = ''name''"
| "type_of (TList _ _) = ''list''"
| "type_of (TDict _) = ''dict''"
| "type_of (TRange _ _) = ''range''"
| "type_of (TOp _ _ _) = ''op''"
| "type_of (TFunc _ _) = ''function''"
| "type_of (TPunc k) = k"
| "type_of (TKeyPair _) = ''keypair''"

text \<open>The constructor \<^verbatim>\<open>TList(value)\<close>: a number gives a placeholder of that size,
  an array gives a realised list whose \<^verbatim>\<open>vars\<close> is the array's length.\<close>

definition new_TList_size :: "nat \<Rightarrow> token" where
  "new_TList_size n = TList n None"

definition new_TList :: "token list \<Rightarrow> token" where
  "new_TList value = TList (length value) (Some value)"


text \<open>Every \<^verbatim>\<open>Numbas.Error\<close> is identified by its message key, with the data it carries
  (an error that reports another one carries it in place of its message text); a JavaScript
  \<^verbatim>\<open>TypeError\<close> (reading a property of \<^verbatim>\<open>undefined\<close>) and a \<^verbatim>\<open>RangeError\<close>
  (a recursion that makes no progress exhausts the call stack) are errors of their own.\<close>

datatype error =
    ListvalInvalidIndex numval nat
  | ListvalNotAList
  | VariableNotDefined string
  | CircularReference string "string list"
  | ErrorComputingDependency string error
  | EmptyDefinition string
  | ErrorEvaluatingVariable string error
  | MatchTreeGroupNameNotAName
  | SubstituteTreeUndefinedVariable string
  | FunctionMaybeImplicitMultiplication string
  | FunctionNotDefined string
  | OpNotDefined string
  | NoRightTypeUnboundName string
  | NoRightTypeDefinition string
  | SimplifyTreeStuckInLoop string
  | TokeniseKeypairKeyNotAString string
  | TokeniseInvalid string
  | JSTypeError
  | JSRangeError

section \<open>Syntax trees\<close>

text \<open>A tree node is \<^verbatim>\<open>{tok: ..., args: [...]}\<close>; a leaf has no \<^verbatim>\<open>args\<close> property.\<close>

datatype tree = Leaf token | Node token "tree list"

fun tok :: "tree \<Rightarrow> token" where
  "tok (Leaf t) = t"
| "tok (Node t _) = t"

fun args :: "tree \<Rightarrow> tree list option" where
  "args (Leaf _) = None"
| "args (Node _ as) = Some as"

fun tsize :: "tree \<Rightarrow> nat"
  and tsizes :: "tree list \<Rightarrow> nat" where
  "tsize (Leaf _) = 1"
| "tsize (Node _ as) = Suc (tsizes as)"
| "tsizes [] = 0"
| "tsizes (t # ts) = tsize t + tsizes ts"

text \<open>\<^verbatim>\<open>tok.name\<close>: only name, operator and function tokens have the property.\<close>

fun tok_name :: "token \<Rightarrow> string option" where
  "tok_name (TName n _ _) = Some n"
| "tok_name (TOp n _ _) = Some n"
| "tok_name (TFunc n _) = Some n"
| "tok_name _ = None"

text \<open>The members of \<^verbatim>\<open>Object.prototype\<close>. The tables and dictionaries of the
  runtime are plain objects, so that reading \<^verbatim>\<open>table[name]\<close> for one of these names gives
  the inherited member (a function or an object, hence neither \<^verbatim>\<open>undefined\<close> nor falsy)
  when the table has no property of its own under that name.\<close>

definition object_prototype :: "string set" where
  "object_prototype =
     {''constructor'', ''hasOwnProperty'', ''isPrototypeOf'', ''propertyIsEnumerable'',
      ''toLocaleString'', ''toString'', ''valueOf'', ''__proto__'', ''__defineGetter__'',
      ''__defineSetter__'', ''__lookupGetter__'', ''__lookupSetter__''}"

text \<open>A name used as a property key; \<^verbatim>\<open>undefined\<close> becomes the key \<^verbatim>\<open>"undefined"\<close>.\<close>

definition key_of_name :: "token \<Rightarrow> string" where
  "key_of_name t = (case tok_name t of Some n \<Rightarrow> n | None \<Rightarrow> ''undefined'')"

fun isOp :: "token \<Rightarrow> string \<Rightarrow> bool" where
  "isOp (TOp n _ _) op = (n = op)"
| "isOp _ op = False"

fun isName :: "token \<Rightarrow> string \<Rightarrow> bool" where
  "isName (TName n _ _) name = (n = name)"
| "isName _ name = False"

fun isFunction :: "token \<Rightarrow> string \<Rightarrow> bool" where
  "isFunction (TFunc n _) name = (n = name)"
| "isFunction _ name = False"

text \<open>\<^verbatim>\<open>String.prototype.toLowerCase\<close> on the ASCII letters (names are ASCII by
  the tokeniser's \<^verbatim>\<open>re_name\<close>).\<close>

fun lower_char :: "char \<Rightarrow> char" where
  "lower_char c =
    (if c = CHR ''A'' then CHR ''a'' else if c = CHR ''B'' then CHR ''b''
     else if c = CHR ''C'' then CHR ''c'' else if c = CHR ''D'' then CHR ''d''
     else if c = CHR ''E'' then CHR ''e'' else if c = CHR ''F'' then CHR ''f''
     else if c = CHR ''G'' then CHR ''g'' else if c = CHR ''H'' then CHR ''h''
     else if c = CHR ''I'' then CHR ''i'' else if c = CHR ''J'' then CHR ''j''
     else if c = CHR ''K'' then CHR ''k'' else if c = CHR ''L'' then CHR ''l''
     else if c = CHR ''M'' then CHR ''m'' else if c = CHR ''N'' then CHR ''n''
     else if c = CHR ''O'' then CHR ''o'' else if c = CHR ''P'' then CHR ''p''
     else if c = CHR ''Q'' then CHR ''q'' else if c = CHR ''R'' then CHR ''r''
     else if c = CHR ''S'' then CHR ''s'' else if c = CHR ''T'' then CHR ''t''
     else if c = CHR ''U'' then CHR ''u'' else if c = CHR ''V'' then CHR ''v''
     else if c = CHR ''W'' then CHR ''w'' else if c = CHR ''X'' then CHR ''x''
     else if c = CHR ''Y'' then CHR ''y'' else if c = CHR ''Z'' then CHR ''z''
     else c)"

definition toLowerCase :: "string \<Rightarrow> string" where
  "toLowerCase s = map lower_char s"

text \<open>The operator arities of \<^verbatim>\<open>jme.arity\<close> (two when not listed) and the constructor
  \<^verbatim>\<open>new TOp(op)\<close> with both flags defaulted.\<close>

definition arity :: "string \<Rightarrow> nat" where
  "arity op = (if op \<in> {''!'', ''not'', ''fact'', ''+u'', ''-u''} then 1 else 2)"

definition new_TOp :: "string \<Rightarrow> token" where
  "new_TOp op = TOp op False False"

section \<open>Pattern matching\<close>

text \<open>\<^verbatim>\<open>jme.commutative[name]\<close>: the lookup in the table of operations which commute. The
  table lists four names; the lookup is also truthy for the inherited members.\<close>

definition commutative :: "string \<Rightarrow> bool" where
  "commutative op = (op \<in> {''*'', ''+'', ''and'', ''=''} \<or> op \<in> object_prototype)"

text \<open>\<^verbatim>\<open>isEndTerm\<close>: strip \<^verbatim>\<open>m_all\<close>, \<^verbatim>\<open>m_pm\<close>, \<^verbatim>\<open>m_not\<close>, \<^verbatim>\<open>m_commute\<close> and \<^verbatim>\<open>;\<close>
  wrappers, look into the alternatives of \<^verbatim>\<open>m_any\<close>, and test the name against
  \<^verbatim>\<open>endTermNames\<close> (a plain object: the lookup is truthy for its three names and for
  the inherited members). Reading \<^verbatim>\<open>args[0]\<close> of a wrapper without arguments is a
  \<^verbatim>\<open>TypeError\<close>.\<close>

definition is_wrapper :: "token \<Rightarrow> bool" where
  "is_wrapper t =
     ((case t of TFunc n _ \<Rightarrow> n \<in> {''m_all'', ''m_pm'', ''m_not'', ''m_commute''} | _ \<Rightarrow> False)
      \<or> isOp t '';'')"

definition endTermNames :: "string \<Rightarrow> bool" where
  "endTermNames n = (n \<in> {''??'', ''m_nothing'', ''m_number''} \<or> n \<in> object_prototype)"

fun isEndTerm :: "tree \<Rightarrow> error + bool"
  and isEndTerm_any :: "tree list \<Rightarrow> error + bool" where
  "isEndTerm (Leaf t) =
     (if is_wrapper t \<or> isFunction t ''m_any'' then Inl JSTypeError
      else case t of TName n _ _ \<Rightarrow> Inr (endTermNames n) | _ \<Rightarrow> Inr False)"
| "isEndTerm (Node t as) =
     (if is_wrapper t then (case as of [] \<Rightarrow> Inl JSTypeError | a # _ \<Rightarrow> isEndTerm a)
      else if isFunction t ''m_any'' then isEndTerm_any as
      else case t of TName n _ _ \<Rightarrow> Inr (endTermNames n) | _ \<Rightarrow> Inr False)"
| "isEndTerm_any [] = Inr False"
| "isEndTerm_any (a # as) =
     (case isEndTerm a of
        Inl e \<Rightarrow> Inl e
      | Inr True \<Rightarrow> Inr True
      | Inr False \<Rightarrow> isEndTerm_any as)"

section \<open>List indexing\<close>

text \<open>\<^verbatim>\<open>util.wrapListIndex(n,size)\<close>: \<^verbatim>\<open>if(n<0) n += size; return n\<close>. A named
  constant is never below zero (the comparison with a complex object is false).\<close>

fun wrapListIndex :: "numval \<Rightarrow> nat \<Rightarrow> numval" where
  "wrapListIndex (NReal n) sz = (if n < 0 then NReal (n + of_nat sz) else NReal n)"
| "wrapListIndex (NConst c) sz = NConst c"

text \<open>\<^verbatim>\<open>index in array\<close> for a dense array: the index is a whole number within
  \<open>0 .. length - 1\<close>.\<close>

fun index_in :: "numval \<Rightarrow> 'a list \<Rightarrow> bool" where
  "index_in (NReal r) xs = (r = of_int \<lfloor>r\<rfloor> \<and> 0 \<le> r \<and> \<lfloor>r\<rfloor> < int (length xs))"
| "index_in (NConst c) xs = False"

fun array_at :: "'a list \<Rightarrow> numval \<Rightarrow> 'a" where
  "array_at xs (NReal r) = xs ! nat \<lfloor>r\<rfloor>"
| "array_at xs (NConst c) = undefined"

text \<open>The builtin \<^verbatim>\<open>listval\<close> with signature \<^verbatim>\<open>[TList,TNum]\<close>: its \<^verbatim>\<open>evaluate\<close>
  receives the evaluated argument tokens; \<open>index\<close> is \<^verbatim>\<open>args[1].value\<close>.\<close>

fun listval :: "token \<Rightarrow> numval \<Rightarrow> error + token" where
  "listval (TList vars value) n =
     (let index = wrapListIndex n vars in
      case value of
        None \<Rightarrow> Inl JSTypeError
      | Some xs \<Rightarrow>
          if index_in index xs then Inr (array_at xs index)
          else Inl (ListvalInvalidIndex index (length xs)))"
| "listval (TName name _ _) n = Inl (VariableNotDefined name)"
| "listval _ n = Inl ListvalNotAList"

text \<open>\<^verbatim>\<open>getCommutingTerms(tree,op,names)\<close> flattens nested applications of \<^verbatim>\<open>op\<close>
  into a list of terms, with the capture names bound to each term. A capture name is
  \<^verbatim>\<open>arg.args[1].tok.name\<close>, which is \<^verbatim>\<open>undefined\<close> for a token without a name.\<close>

type_synonym names = "string option list"

text \<open>The loop \<^verbatim>\<open>while(jme.isOp(arg.tok,';'))\<close>, which strips the capture wrappers off an
  argument and collects their names.\<close>


fun strip_binds :: "tree \<Rightarrow> names \<Rightarrow> error + (tree \<times> names)" where
  "strip_binds (Node t (a # b # as)) argnames =
     (if isOp t '';'' then strip_binds a (argnames @ [tok_name (tok b)])
      else Inr (Node t (a # b # as), argnames))"
| "strip_binds arg argnames =
     (if isOp (tok arg) '';'' then Inl JSTypeError else Inr (arg, argnames))"

text \<open>A weight that counts a subtraction node three times: the measure under which
  \<^verbatim>\<open>getCommutingTerms\<close> terminates although it rewrites \<open>a - b\<close> to \<open>a + (-u b)\<close>.\<close>

fun wsize :: "tree \<Rightarrow> nat"
  and wsizes :: "tree list \<Rightarrow> nat" where
  "wsize (Leaf _) = 1"
| "wsize (Node t as) = (if isOp t ''-'' then 3 else 1) + wsizes as"
| "wsizes [] = 0"
| "wsizes (t # ts) = wsize t + wsizes ts"

lemma wsize_pos [simp]: "0 < wsize t"
  by (cases t) auto

lemma tsize_pos [simp]: "0 < tsize t"
  by (cases t) auto

lemma strip_binds_wsize:
  "strip_binds a n = Inr (a', n') \<Longrightarrow> wsize a' \<le> wsize a"
  by (induction a n rule: strip_binds.induct) (auto split: if_splits)

lemma strip_binds_tsize:
  "strip_binds a n = Inr (a', n') \<Longrightarrow> tsize a' \<le> tsize a"
  by (induction a n rule: strip_binds.induct) (auto split: if_splits)

text \<open>When the tree is not an application of \<^verbatim>\<open>op\<close> the function returns
  \<^verbatim>\<open>termnames: names.slice()\<close>, an array of names rather than of name lists; read
  as a name list, a string yields its characters.\<close>

definition flat_names :: "names \<Rightarrow> names list" where
  "flat_names ns = map (\<lambda>n. case n of None \<Rightarrow> [] | Some s \<Rightarrow> map (\<lambda>c. Some [c]) s) ns"

text \<open>Subtraction is treated as addition of a negation. A subtraction node is taken to
  have its two arguments, as the parser builds it; a shorter argument array is reported as
  \<^verbatim>\<open>JSTypeError\<close>.\<close>

definition minus_as_plus :: "tree \<Rightarrow> string \<Rightarrow> error + tree" where
  "minus_as_plus tree op =
     (if op = ''+'' \<and> isOp (tok tree) ''-'' then
        (case tree of
           Node _ (a # b # _) \<Rightarrow> Inr (Node (new_TOp ''+'') [a, Node (new_TOp ''-u'') [b]])
         | _ \<Rightarrow> Inl JSTypeError)
      else Inr tree)"

function getCommutingTerms :: "tree \<Rightarrow> string \<Rightarrow> names \<Rightarrow> error + (tree list \<times> names list)"
  and gct_args :: "tree list \<Rightarrow> string \<Rightarrow> names
        \<Rightarrow> (tree list \<times> names list \<times> tree list \<times> names list)
        \<Rightarrow> error + (tree list \<times> names list \<times> tree list \<times> names list)" where
  "getCommutingTerms tree op names =
     (case minus_as_plus tree op of
        Inl e \<Rightarrow> Inl e
      | Inr tree' \<Rightarrow>
          (case tree' of
             Leaf _ \<Rightarrow> Inr ([tree'], flat_names names)
           | Node t as \<Rightarrow>
               if tok_name t \<noteq> Some op then Inr ([tree'], flat_names names)
               else
                 (case gct_args as op names ([], [], [], []) of
                    Inl e \<Rightarrow> Inl e
                  | Inr (terms, termnames, rest, restnames) \<Rightarrow>
                      Inr (terms @ rest, termnames @ restnames))))"
| "gct_args [] op names acc = Inr acc"
| "gct_args (oarg # as) op names (terms, termnames, rest, restnames) =
     (case strip_binds oarg names of
        Inl e \<Rightarrow> Inl e
      | Inr (arg, argnames) \<Rightarrow>
          if isOp (tok arg) op \<or> (op = ''+'' \<and> isOp (tok arg) ''-'') then
            (case getCommutingTerms arg op argnames of
               Inl e \<Rightarrow> Inl e
             | Inr (sterms, snames) \<Rightarrow>
                 gct_args as op names (terms @ sterms, termnames @ snames, rest, restnames))
          else if isName (tok arg) ''?'' then
            gct_args as op names (terms, termnames, rest @ [arg], restnames @ [argnames])
          else
            (case isEndTerm arg of
               Inl e \<Rightarrow> Inl e
             | Inr True \<Rightarrow>
                 gct_args as op names (terms, termnames, rest @ [arg], restnames @ [argnames])
             | Inr False \<Rightarrow>
                 gct_args as op names (terms @ [arg], termnames @ [argnames], rest, restnames)))"
  by pat_completeness auto
termination
  apply (relation "measure (\<lambda>x. case x of Inl (t, _, _) \<Rightarrow> 2 * wsize t
                                  | Inr (as, _, _, _) \<Rightarrow> 2 * wsizes as + 1)")
  apply (auto simp: minus_as_plus_def new_TOp_def split: if_splits tree.splits list.splits dest: strip_binds_wsize)
  done

fun maxsize :: "tree list \<Rightarrow> nat" where
  "maxsize [] = 0"
| "maxsize (t # ts) = max (tsize t) (maxsize ts)"

lemma maxsize_append [simp]: "maxsize (xs @ ys) = max (maxsize xs) (maxsize ys)"
  by (induction xs) auto

lemma tsizes_append [simp]: "tsizes (xs @ ys) = tsizes xs + tsizes ys"
  by (induction xs) auto

lemma maxsize_le_tsizes: "maxsize xs \<le> tsizes xs"
  by (induction xs) auto


lemma gct_tsizes:
  "getCommutingTerms t op ns = Inr (ts, tn) \<Longrightarrow> tsizes ts \<le> tsize t"
  "gct_args as op ns acc = Inr acc' \<Longrightarrow>
     tsizes (fst acc') + tsizes (fst (snd (snd acc')))
       \<le> tsizes (fst acc) + tsizes (fst (snd (snd acc))) + tsizes as"
proof (induction t op ns and as op ns acc arbitrary: ts tn and acc'
       rule: getCommutingTerms_gct_args.induct)
  case (1 tree op names)
  obtain tree' where m: "minus_as_plus tree op = Inr tree'"
    using "1.prems" by (cases "minus_as_plus tree op") auto
  have sz: "tsize tree' \<le> Suc (tsize tree)"
    using m by (auto simp: minus_as_plus_def new_TOp_def split: if_splits tree.splits list.splits)
  show ?case
  proof (cases tree')
    case (Leaf x)
    then show ?thesis using "1.prems" m sz
      by (auto simp: minus_as_plus_def split: if_splits tree.splits list.splits)
  next
    case (Node t as)
    show ?thesis
    proof (cases "tok_name t = Some op")
      case False
      then show ?thesis using "1.prems" m Node
        by (auto simp: minus_as_plus_def new_TOp_def split: if_splits tree.splits list.splits)
    next
      case True
      obtain a b c d where g: "gct_args as op names ([], [], [], []) = Inr (a, b, c, d)"
        using "1.prems" m Node True by (auto split: sum.splits)
      have ts: "ts = a @ c" using "1.prems" m Node True g by simp
      have "tsizes a + tsizes c \<le> tsizes as"
        using "1.IH"[OF m Node _ g] True by simp
      moreover have "tsizes as \<le> tsize tree"
        using m Node
        by (auto simp: minus_as_plus_def new_TOp_def split: if_splits tree.splits list.splits)
      ultimately show ?thesis using ts by simp
    qed
  qed
next
  case (2 op names acc)
  then show ?case by simp
next
  case (3 oarg as op names terms termnames rest restnames)
  obtain arg argnames where sb: "strip_binds oarg names = Inr (arg, argnames)"
    using "3.prems" by (cases "strip_binds oarg names") auto
  have le: "tsize arg \<le> tsize oarg" using sb by (rule strip_binds_tsize)
  show ?case
  proof (cases "isOp (tok arg) op \<or> (op = ''+'' \<and> isOp (tok arg) ''-'')")
    case True
    obtain st sn where g: "getCommutingTerms arg op argnames = Inr (st, sn)"
      using "3.prems" sb True by (auto split: sum.splits)
    have r: "gct_args as op names (terms @ st, termnames @ sn, rest, restnames) = Inr acc'"
      using "3.prems" sb True g by simp
    have "tsizes st \<le> tsize arg" using "3.IH"(1)[OF sb refl True g] .
    moreover have "tsizes (fst acc') + tsizes (fst (snd (snd acc')))
       \<le> tsizes (fst (terms @ st, termnames @ sn, rest, restnames))
         + tsizes (fst (snd (snd (terms @ st, termnames @ sn, rest, restnames)))) + tsizes as"
      using "3.IH"(2)[OF sb refl True g refl r] .
    ultimately show ?thesis using le by simp
  next
    case False
    note nop = False
    show ?thesis
    proof (cases "isName (tok arg) ''?''")
      case True
      have r: "gct_args as op names (terms, termnames, rest @ [arg], restnames @ [argnames]) = Inr acc'"
        using "3.prems" sb nop True by simp
      show ?thesis using "3.IH"(3)[OF sb refl nop True r] le by simp
    next
      case False
      obtain bb where ie: "isEndTerm arg = Inr bb"
        using "3.prems" sb nop False by (auto split: sum.splits)
      show ?thesis
      proof (cases bb)
        case True
        have r: "gct_args as op names (terms, termnames, rest @ [arg], restnames @ [argnames]) = Inr acc'"
          using "3.prems" sb nop False ie True by simp
        have bt: "bb = True" using True by simp
        show ?thesis using "3.IH"(4)[OF sb refl nop False ie bt r] le by simp
      next
        case F: False
        have r: "gct_args as op names (terms @ [arg], termnames @ [argnames], rest, restnames) = Inr acc'"
          using "3.prems" sb nop False ie F by simp
        have bf: "bb = False" using F by simp
        show ?thesis using "3.IH"(5)[OF sb refl nop False ie bf r] le by simp
      qed
    qed
  qed
qed

lemma gct_maxsize:
  "getCommutingTerms t op ns = Inr (ts, tn) \<Longrightarrow> ts = [t] \<or> maxsize ts < tsize t"
  "gct_args as op ns acc = Inr acc' \<Longrightarrow>
     max (maxsize (fst acc')) (maxsize (fst (snd (snd acc'))))
       \<le> max (max (maxsize (fst acc)) (maxsize (fst (snd (snd acc))))) (maxsize as)"
proof (induction t op ns and as op ns acc arbitrary: ts tn and acc'
       rule: getCommutingTerms_gct_args.induct)
  case (1 tree op names)
  obtain tree' where m: "minus_as_plus tree op = Inr tree'"
    using "1.prems" by (cases "minus_as_plus tree op") auto
  show ?case
  proof (cases tree')
    case (Leaf x)
    then show ?thesis using "1.prems" m
      by (auto simp: minus_as_plus_def split: if_splits tree.splits list.splits)
  next
    case (Node t as)
    show ?thesis
    proof (cases "tok_name t = Some op")
      case False
      then show ?thesis using "1.prems" m Node
        by (auto simp: minus_as_plus_def new_TOp_def split: if_splits tree.splits list.splits)
    next
      case True
      obtain a b c d where g: "gct_args as op names ([], [], [], []) = Inr (a, b, c, d)"
        using "1.prems" m Node True by (auto split: sum.splits)
      have ts: "ts = a @ c" using "1.prems" m Node True g by simp
      have "max (maxsize a) (maxsize c) \<le> maxsize as"
        using "1.IH"[OF m Node _ g] True by simp
      moreover have "maxsize as < tsize tree"
        using m Node maxsize_le_tsizes[of as]
        by (auto simp: minus_as_plus_def new_TOp_def split: if_splits tree.splits list.splits)
      ultimately show ?thesis using ts by simp
    qed
  qed
next
  case (2 op names acc)
  then show ?case by simp
next
  case (3 oarg as op names terms termnames rest restnames)
  obtain arg argnames where sb: "strip_binds oarg names = Inr (arg, argnames)"
    using "3.prems" by (cases "strip_binds oarg names") auto
  have le: "tsize arg \<le> tsize oarg" using sb by (rule strip_binds_tsize)
  show ?case
  proof (cases "isOp (tok arg) op \<or> (op = ''+'' \<and> isOp (tok arg) ''-'')")
    case True
    obtain st sn where g: "getCommutingTerms arg op argnames = Inr (st, sn)"
      using "3.prems" sb True by (auto split: sum.splits)
    have r: "gct_args as op names (terms @ st, termnames @ sn, rest, restnames) = Inr acc'"
      using "3.prems" sb True g by simp
    have "st = [arg] \<or> maxsize st < tsize arg" using "3.IH"(1)[OF sb refl True g] .
    then have "maxsize st \<le> tsize arg" by auto
    moreover have "max (maxsize (fst acc')) (maxsize (fst (snd (snd acc'))))
       \<le> max (max (maxsize (fst (terms @ st, termnames @ sn, rest, restnames)))
            (maxsize (fst (snd (snd (terms @ st, termnames @ sn, rest, restnames)))))) (maxsize as)"
      using "3.IH"(2)[OF sb refl True g refl r] .
    ultimately show ?thesis using le by (simp; arith)
  next
    case False
    note nop = False
    show ?thesis
    proof (cases "isName (tok arg) ''?''")
      case True
      have r: "gct_args as op names (terms, termnames, rest @ [arg], restnames @ [argnames]) = Inr acc'"
        using "3.prems" sb nop True by simp
      show ?thesis using "3.IH"(3)[OF sb refl nop True r] le by (simp; arith)
    next
      case False
      obtain bb where ie: "isEndTerm arg = Inr bb"
        using "3.prems" sb nop False by (auto split: sum.splits)
      show ?thesis
      proof (cases bb)
        case True
        have r: "gct_args as op names (terms, termnames, rest @ [arg], restnames @ [argnames]) = Inr acc'"
          using "3.prems" sb nop False ie True by simp
        have bt: "bb = True" using True by simp
        show ?thesis using "3.IH"(4)[OF sb refl nop False ie bt r] le by (simp; arith)
      next
        case F: False
        have r: "gct_args as op names (terms @ [arg], termnames @ [argnames], rest, restnames) = Inr acc'"
          using "3.prems" sb nop False ie F by simp
        have bf: "bb = False" using F by simp
        show ?thesis using "3.IH"(5)[OF sb refl nop False ie bf r] le by (simp; arith)
      qed
    qed
  qed
qed

lemma gct_node_tsizes:
  assumes "getCommutingTerms (Node t as) op [] = Inr (ts, tn)"
    and "tok_name t = Some op" and "commutative op"
  shows "tsizes ts < tsize (Node t as)"
proof -
  have nm: "\<not> (op = ''+'' \<and> isOp t ''-'')"
    using assms(2) by (cases t) auto
  then have m: "minus_as_plus (Node t as) op = Inr (Node t as)"
    by (auto simp: minus_as_plus_def)
  obtain a b c d where g: "gct_args as op [] ([], [], [], []) = Inr (a, b, c, d)"
    using assms(1,2) m by (auto split: sum.splits)
  have ts: "ts = a @ c" using assms(1,2) m g by simp
  show ?thesis using gct_tsizes(2)[OF g] ts by simp
qed


declare getCommutingTerms.simps [simp del]






















lemma gct_leaf:
  "tok_name t = Some op \<Longrightarrow> commutative op \<Longrightarrow>
   getCommutingTerms (Leaf t) op [] = Inr (ts, tn) \<Longrightarrow> ts = [Leaf t]"
  by (cases t) (auto simp: getCommutingTerms.simps minus_as_plus_def split: if_splits)

lemma commute_call_decreases:
  assumes r: "getCommutingTerms ruleTree op [] = Inr (rterms, rnames)"
    and e: "getCommutingTerms exprTree op [] = Inr (eterms, enames)"
    and nm: "tok_name (tok ruleTree) = Some op" and c: "commutative op"
    and np: "\<not> (args ruleTree = None \<and> eterms = [exprTree])"
  shows "tsizes rterms < tsize ruleTree
       \<or> (tsizes rterms = tsize ruleTree \<and> maxsize eterms < tsize exprTree)"
proof (cases ruleTree)
  case (Leaf t)
  then have "rterms = [Leaf t]" using gct_leaf[of t op rterms rnames] r nm c by simp
  moreover have "eterms \<noteq> [exprTree]" using np Leaf by simp
  then have "maxsize eterms < tsize exprTree" using gct_maxsize(1)[OF e] by auto
  ultimately show ?thesis using Leaf by simp
next
  case (Node t as)
  then show ?thesis using gct_node_tsizes[of t as op rterms rnames] r nm c by simp
qed








section \<open>Commuting matches and the order of the subject's terms\<close>




lemma gct_args_Cons:
  "gct_args (x # xs) op names (T, TN, R, RN) =
     (case gct_args [x] op names ([], [], [], []) of
        Inl e \<Rightarrow> Inl e
      | Inr (t, tn, r, rn) \<Rightarrow> gct_args xs op names (T @ t, TN @ tn, R @ r, RN @ rn))"
  by (simp split: sum.splits prod.splits bool.splits)


lemma gct_pair:
  assumes "commutative OP"
  shows "getCommutingTerms (Node (TOp OP qo qr) [a, b]) OP [] =
     (case gct_args [a] OP [] ([], [], [], []) of
        Inl e \<Rightarrow> Inl e
      | Inr (ta, tna, ra, rna) \<Rightarrow>
          (case gct_args [b] OP [] ([], [], [], []) of
             Inl e \<Rightarrow> Inl e
           | Inr (tb, tnb, rb, rnb) \<Rightarrow> Inr ((ta @ tb) @ ra @ rb, (tna @ tnb) @ rna @ rnb)))"
proof -
  have nm: "OP \<noteq> ''-''" using assms by (auto simp: commutative_def object_prototype_def)
  have m: "minus_as_plus (Node (TOp OP qo qr) [a, b]) OP = Inr (Node (TOp OP qo qr) [a, b])"
    using nm by (simp add: minus_as_plus_def)
  have "gct_args [a, b] OP [] ([], [], [], []) =
     (case gct_args [a] OP [] ([], [], [], []) of
        Inl e \<Rightarrow> Inl e
      | Inr (ta, tna, ra, rna) \<Rightarrow>
          (case gct_args [b] OP [] ([], [], [], []) of
             Inl e \<Rightarrow> Inl e
           | Inr (tb, tnb, rb, rnb) \<Rightarrow> Inr (ta @ tb, tna @ tnb, ra @ rb, rna @ rnb)))"
    apply (subst gct_args_Cons[of a "[b]"])
    apply (subst gct_args_Cons[of b "[]"])
    apply (simp split: sum.splits prod.splits)
    done
  then show ?thesis
    by (subst getCommutingTerms.simps) (simp add: m split: sum.splits prod.splits)
qed



lemma gct_pair_swap_error:
  assumes "commutative OP"
    and "getCommutingTerms (Node (TOp OP qo qr) [a, b]) OP [] = Inl e"
  shows "\<exists>e'. getCommutingTerms (Node (TOp OP qo qr) [b, a]) OP [] = Inl e'"
proof -
  note g = assms(2)[unfolded gct_pair[OF assms(1)]]
  show ?thesis
  proof (cases "gct_args [b] OP [] ([], [], [], [])")
    case (Inl e')
    then show ?thesis unfolding gct_pair[OF assms(1)]
      by (simp del: gct_args.simps split: sum.splits prod.splits)
  next
    case (Inr rb)
    then have "\<exists>e'. gct_args [a] OP [] ([], [], [], []) = Inl e'"
      using g by (cases "gct_args [a] OP [] ([], [], [], [])")
                 (auto simp del: gct_args.simps split: prod.splits)
    then show ?thesis unfolding gct_pair[OF assms(1)] using Inr
      by (auto simp del: gct_args.simps split: prod.splits)
  qed
qed













































lemma isFunction_D: "isFunction t n \<Longrightarrow> \<exists>v. t = TFunc n v"
  by (cases t) auto

lemma isOp_D: "isOp t n \<Longrightarrow> \<exists>x y. t = TOp n x y"
  by (cases t) auto

































section \<open>Scopes\<close>

text \<open>A function-definition record (\<^verbatim>\<open>jme.funcObj\<close>): its lower-cased name, its globally
  unique \<^verbatim>\<open>id\<close>, its signature after the constructor has replaced type constructors by
  their type tags, its \<^verbatim>\<open>typecheck\<close> predicate and its \<^verbatim>\<open>evaluate\<close> procedure, taken
  as a function of the evaluated argument tokens.\<close>

record funcObj =
  fn_name :: string
  fn_id :: nat
  intype :: "string list"
  fn_typecheck :: "token list \<Rightarrow> bool"
  fn_evaluate :: "token list \<Rightarrow> error + token"

text \<open>The default \<^verbatim>\<open>typecheck\<close>: positional match of the argument tokens' type tags
  against the signature; \<^verbatim>\<open>'?'\<close> accepts any type and a slot starting with \<^verbatim>\<open>'*'\<close>
  accepts all the remaining arguments when each has the type named after the star.\<close>

fun typecheck_types :: "string list \<Rightarrow> string list \<Rightarrow> bool" where
  "typecheck_types [] vs = (vs = [])"
| "typecheck_types (t # ts) vs =
     (if take 1 t = ''*'' then
        (let ntype = drop 1 t in
         if list_all (\<lambda>v. v = ntype \<or> ntype = ''?'' \<or> v = ''?'') vs
         then typecheck_types ts [] else False)
      else
        (case vs of
           [] \<Rightarrow> False
         | v # vs' \<Rightarrow>
             if v = t \<or> t = ''?'' \<or> v = ''?'' then typecheck_types ts vs' else False))"

definition typecheck_default :: "string list \<Rightarrow> token list \<Rightarrow> bool" where
  "typecheck_default sig variables = typecheck_types sig (map type_of variables)"

text \<open>\<^verbatim>\<open>new funcObj(name,intype,outcons,fn,options)\<close>: \<open>acc\<close> is the counter
  \<^verbatim>\<open>funcObjAcc\<close>, returned incremented.\<close>

definition new_funcObj :: "nat \<Rightarrow> string \<Rightarrow> string list \<Rightarrow> (token list \<Rightarrow> bool) option
     \<Rightarrow> (token list \<Rightarrow> error + token) \<Rightarrow> funcObj \<times> nat" where
  "new_funcObj acc name sig custom_typecheck ev =
     (\<lparr>fn_name = toLowerCase name, fn_id = acc, intype = sig,
       fn_typecheck = (case custom_typecheck of Some tc \<Rightarrow> tc | None \<Rightarrow> typecheck_default sig),
       fn_evaluate = ev\<rparr>, Suc acc)"

text \<open>One \<^verbatim>\<open>Scope\<close> object: its own variables, its own function lists, the memo table
  \<^verbatim>\<open>_resolved_functions\<close> and the names in \<^verbatim>\<open>deleted.variables\<close>; \<open>'v\<close> is what a
  variable holds (a token for evaluation, a token or a tree for substitution). Rulesets are
  not modelled. The maps hold the properties that the objects have of their own.\<close>

record 'v level =
  variables :: "string \<rightharpoonup> 'v"
  scope_functions :: "string \<rightharpoonup> funcObj list"
  resolved_functions :: "string \<rightharpoonup> funcObj list"
  deleted_variables :: "string set"

datatype 'v scope = Scope (own: "'v level") (parent: "'v scope option")

text \<open>\<^verbatim>\<open>resolve('variables',name)\<close>: walk from the scope to the root, stopping at the
  first scope that deletes or defines the name. The test \<^verbatim>\<open>scope.deleted[collection][name]\<close>
  is truthy for the name of an inherited member, which therefore resolves to
  \<^verbatim>\<open>undefined\<close>.\<close>

fun getVariable :: "'v scope \<Rightarrow> string \<Rightarrow> 'v option" where
  "getVariable (Scope lv par) name =
     (if name \<in> deleted_variables lv \<or> name \<in> object_prototype then None
      else case variables lv name of
             Some v \<Rightarrow> Some v
           | None \<Rightarrow> (case par of None \<Rightarrow> None | Some p \<Rightarrow> getVariable p name))"

text \<open>The assignment \<^verbatim>\<open>scope.variables[name] = value\<close>, and \<^verbatim>\<open>setVariable\<close>, which
  lower-cases the name first.\<close>

fun set_own_variable :: "'v scope \<Rightarrow> string \<Rightarrow> 'v \<Rightarrow> 'v scope" where
  "set_own_variable (Scope lv par) name v = Scope (lv\<lparr>variables := (variables lv)(name \<mapsto> v)\<rparr>) par"

definition setVariable :: "'v scope \<Rightarrow> string \<Rightarrow> 'v \<Rightarrow> 'v scope" where
  "setVariable scope name v = set_own_variable scope (toLowerCase name) v"


definition empty_level :: "'v level" where
  "empty_level = \<lparr>variables = Map.empty, scope_functions = Map.empty,
                   resolved_functions = Map.empty, deleted_variables = {}\<rparr>"

text \<open>\<^verbatim>\<open>new Scope([parent, extras])\<close>: the extra variables are stored with
  \<^verbatim>\<open>setVariable\<close>, the extra function table is taken as it is.\<close>

definition new_Scope :: "'v scope option \<Rightarrow> (string \<times> 'v) list
     \<Rightarrow> (string \<rightharpoonup> funcObj list) option \<Rightarrow> 'v scope" where
  "new_Scope par extra_variables extra_functions =
     (case foldl (\<lambda>s (x, v). setVariable s x v) (Scope empty_level par) extra_variables of
        Scope lv p \<Rightarrow>
          Scope (lv\<lparr>scope_functions :=
                      (case extra_functions of None \<Rightarrow> Map.empty | Some fs \<Rightarrow> fs)\<rparr>) p)"

text \<open>The first lines of \<^verbatim>\<open>Scope.evaluate(expr,variables)\<close>: when a dictionary of
  variables is given, evaluation takes place in a new child scope that holds them
  (\<^verbatim>\<open>jme.wrapValue\<close> leaves a token as it is).\<close>

definition evaluate_scope :: "token scope \<Rightarrow> (string \<times> token) list option \<Rightarrow> token scope" where
  "evaluate_scope this vs =
     (case vs of
        None \<Rightarrow> this
      | Some dict \<Rightarrow>
          foldl (\<lambda>s (name, v). set_own_variable s name v) (new_Scope (Some this) [] None) dict)"

section \<open>Function overloads\<close>

text \<open>\<^verbatim>\<open>Array.prototype.merge\<close> with a comparison by \<^verbatim>\<open>id\<close> (\<^verbatim>\<open>fnSort\<close>): an empty
  receiver returns a copy of the argument; otherwise the concatenation is sorted
  (\<^verbatim>\<open>Array.prototype.sort\<close>, stable since ECMAScript 2019) and an element that compares
  equal to the one before it is removed.\<close>

fun remove_repeats :: "('a \<Rightarrow> nat) \<Rightarrow> 'a list \<Rightarrow> 'a list" where
  "remove_repeats key (x # y # zs) =
     (if key x = key y then remove_repeats key (x # zs) else x # remove_repeats key (y # zs))"
| "remove_repeats key xs = xs"

definition merge :: "('a \<Rightarrow> nat) \<Rightarrow> 'a list \<Rightarrow> 'a list \<Rightarrow> 'a list" where
  "merge key this arr =
     (if this = [] then arr else remove_repeats key (sort_key key (this @ arr)))"

text \<open>\<^verbatim>\<open>addFunction\<close>: the memo entry is deleted only when the name already has a list.\<close>

fun addFunction :: "'v scope \<Rightarrow> funcObj \<Rightarrow> 'v scope" where
  "addFunction (Scope lv par) fn =
     (case scope_functions lv (fn_name fn) of
        None \<Rightarrow> Scope (lv\<lparr>scope_functions := (scope_functions lv)(fn_name fn \<mapsto> [fn])\<rparr>) par
      | Some fs \<Rightarrow>
          Scope (lv\<lparr>scope_functions := (scope_functions lv)(fn_name fn \<mapsto> fs @ [fn]),
                     resolved_functions := (resolved_functions lv)(fn_name fn := None)\<rparr>) par)"

text \<open>\<^verbatim>\<open>getFunction(name)\<close>: the loop over the scope chain, and the memo table around it.\<close>

fun collect_functions :: "'v scope \<Rightarrow> string \<Rightarrow> funcObj list \<Rightarrow> funcObj list" where
  "collect_functions (Scope lv par) name out =
     (let out1 = (case scope_functions lv name of None \<Rightarrow> out | Some fs \<Rightarrow> merge fn_id out fs)
      in case par of None \<Rightarrow> out1 | Some p \<Rightarrow> collect_functions p name out1)"

fun set_resolved :: "'v scope \<Rightarrow> string \<Rightarrow> funcObj list \<Rightarrow> 'v scope" where
  "set_resolved (Scope lv par) name fs =
     Scope (lv\<lparr>resolved_functions := (resolved_functions lv)(name \<mapsto> fs)\<rparr>) par"

definition getFunction :: "'v scope \<Rightarrow> string \<Rightarrow> funcObj list \<times> 'v scope" where
  "getFunction this name =
     (case resolved_functions (own this) name of
        Some fs \<Rightarrow> (fs, this)
      | None \<Rightarrow>
          (let out = collect_functions this name [] in (out, set_resolved this name out)))"

section \<open>Dependency-ordered evaluation of variables\<close>

text \<open>A definition to evaluate: its tree (absent for an empty definition) and the names
  it refers to. The dictionary \<^verbatim>\<open>todo\<close> is the list of its own properties in insertion
  order (a name is taken not to be \<^verbatim>\<open>__proto__\<close> or the decimal form of an array index,
  which JavaScript enumerates before the other keys). \<^verbatim>\<open>jme.evaluate\<close> is
  taken as a function \<open>ev\<close> of the scope and the tree that returns a token or raises an
  error, and does not write the variables of the scope.\<close>

record vardef =
  vtree :: "tree option"
  vars :: "string list"

type_synonym todo = "(string \<times> vardef) list"

type_synonym evaluator = "token scope \<Rightarrow> tree \<Rightarrow> error + token"

text \<open>The \<^verbatim>\<open>catch\<close> around the computation of a dependency: a circular-reference or
  undefined-variable error is thrown again as it is, any other error is reported as an
  error of the dependency.\<close>

fun rethrow_dependency :: "string \<Rightarrow> error \<Rightarrow> error" where
  "rethrow_dependency x (CircularReference n p) = CircularReference n p"
| "rethrow_dependency x (VariableNotDefined n) = VariableNotDefined n"
| "rethrow_dependency x e = ErrorComputingDependency x e"

lemma card_todo_less:
  assumes "map_of todo name = Some v" and "name \<notin> set path"
  shows "card (fst ` set todo - insert name (set path)) < card (fst ` set todo - set path)"
proof (rule psubset_card_mono)
  show "finite (fst ` set todo - set path)" by simp
  have "name \<in> fst ` set todo" using assms(1) by (metis map_of_SomeD fst_conv image_eqI)
  then show "fst ` set todo - insert name (set path) \<subset> fst ` set todo - set path"
    using assms(2) by auto
qed

lemma card_todo_measure:
  "map_of todo name = Some v \<Longrightarrow> name \<notin> set path \<Longrightarrow>
   Suc (2 * card (fst ` set todo - insert name (set path))) < 2 * card (fst ` set todo - set path)"
  using card_todo_less[of todo name v path] by linarith

text \<open>\<^verbatim>\<open>computeVariable(name,todo,scope,path,computeFn)\<close> with the default
  \<^verbatim>\<open>computeFn\<close> (itself); \<open>compute_deps\<close> is its loop over \<^verbatim>\<open>v.vars\<close>. The new path is
  \<^verbatim>\<open>path\<close> with \<^verbatim>\<open>name\<close> spliced in at position 0. The result is the returned value
  \<^verbatim>\<open>scope.variables[name]\<close> and the scope as the call leaves it. \<^verbatim>\<open>todo\<close> and
  \<^verbatim>\<open>scope.variables\<close> are plain objects: for the name of an inherited member that
  \<^verbatim>\<open>todo\<close> does not define, \<^verbatim>\<open>todo[name]\<close> is the member, whose \<^verbatim>\<open>vars\<close> is
  \<^verbatim>\<open>undefined\<close> (a \<^verbatim>\<open>TypeError\<close>), and \<^verbatim>\<open>scope.variables[x]\<close> is not
  \<^verbatim>\<open>undefined\<close>, so that such a dependency is skipped.\<close>

function computeVariable :: "evaluator \<Rightarrow> string \<Rightarrow> todo \<Rightarrow> token scope \<Rightarrow> string list
      \<Rightarrow> error + (token option \<times> token scope)"
  and compute_deps :: "evaluator \<Rightarrow> string \<Rightarrow> todo \<Rightarrow> token scope \<Rightarrow> string list \<Rightarrow> string list
      \<Rightarrow> error + token scope" where
  "computeVariable ev name todo scope path =
     (if getVariable scope name \<noteq> None then Inr (variables (own scope) name, scope)
      else if name \<in> set path then Inl (CircularReference name path)
      else
        (case map_of todo name of
           None \<Rightarrow>
             if name \<in> object_prototype then Inl JSTypeError
             else Inl (VariableNotDefined name)
         | Some v \<Rightarrow>
             (case compute_deps ev name todo scope path (vars v) of
                Inl e \<Rightarrow> Inl e
              | Inr scope1 \<Rightarrow>
                  (case vtree v of
                     None \<Rightarrow> Inl (EmptyDefinition name)
                   | Some t \<Rightarrow>
                       (case ev scope1 t of
                          Inl e \<Rightarrow> Inl (ErrorEvaluatingVariable name e)
                        | Inr val \<Rightarrow>
                            Inr (Some val, set_own_variable scope1 name val))))))"
| "compute_deps ev name todo scope path [] = Inr scope"
| "compute_deps ev name todo scope path (x # xs) =
     (if variables (own scope) x = None \<and> x \<notin> object_prototype then
        (case computeVariable ev x todo scope (name # path) of
           Inl e \<Rightarrow> Inl (rethrow_dependency x e)
         | Inr (_, scope1) \<Rightarrow> compute_deps ev name todo scope1 path xs)
      else compute_deps ev name todo scope path xs)"
  by pat_completeness auto
termination
  apply (relation "measures
     [\<lambda>c. case c of
             Inl (ev, name, todo, scope, path) \<Rightarrow> 2 * card (set (map fst todo) - set path)
           | Inr (ev, name, todo, scope, path, xs) \<Rightarrow>
               2 * card (set (map fst todo) - set (name # path)) + 1,
      \<lambda>c. case c of Inl _ \<Rightarrow> 0 | Inr (ev, name, todo, scope, path, xs) \<Rightarrow> length xs]")
  apply (simp_all add: card_todo_measure)
  done


declare computeVariable.simps [simp del]























section \<open>Properties\<close>








text \<open>
  Claim C9. For a realised list \<open>l\<close> of length \<open>n\<close> and an integer \<open>i\<close>, \<open>l[i]\<close> is the
  element at position \<open>i\<close> when \<open>0 \<le> i < n\<close>, the element at position \<open>i + n\<close> when
  \<open>-n \<le> i < 0\<close>, and the invalid-index error for every other \<open>i\<close>.
\<close>

theorem listval_index:
  "listval (new_TList xs) (NReal (of_int i)) =
     (if 0 \<le> i \<and> i < int (length xs) then Inr (xs ! nat i)
      else if - int (length xs) \<le> i \<and> i < 0 then Inr (xs ! nat (i + int (length xs)))
      else Inl (ListvalInvalidIndex
                  (NReal (of_int (if i < 0 then i + int (length xs) else i))) (length xs)))"
proof -
  have shift: "(of_int i :: rat) + of_nat (length xs) = of_int (i + int (length xs))"
    by simp
  show ?thesis
    unfolding new_TList_def
    by (simp only: listval.simps wrapListIndex.simps Let_def shift option.case
          index_in.simps array_at.simps of_int_less_0_iff floor_of_int of_int_0_le_iff
          split: if_splits)
       auto
qed

theorem listval_index_witness:
  "listval (new_TList [TBool True, TBool False]) (NReal (of_int (- 1))) = Inr (TBool False)"
  using listval_index [of "[TBool True, TBool False]" "- 1"] by simp






text \<open>
  Claim C8. The claim says that every write into a scope's variables lower-cases the name.
  \<^verbatim>\<open>setVariable\<close> does; the variables dictionary given to \<^verbatim>\<open>Scope.evaluate\<close> and the
  result written by \<^verbatim>\<open>computeVariable\<close> are stored under the name as it is given, so that
  a scope can hold \<open>X\<close> and \<open>x\<close> side by side.
\<close>

theorem variables_keep_case:
  "variables (own (evaluate_scope (new_Scope None [] None)
       (Some [(''X'', TBool True), (''x'', TBool False)]))) ''X'' = Some (TBool True)
   \<and> variables (own (evaluate_scope (new_Scope None [] None)
       (Some [(''X'', TBool True), (''x'', TBool False)]))) ''x'' = Some (TBool False)
   \<and> (case computeVariable (\<lambda>s t. Inr (TBool True)) ''A''
             [(''A'', \<lparr>vtree = Some (Leaf (TBool True)), vars = []\<rparr>)]
             (new_Scope None [(''a'', TBool False)] None) [] of
         Inl e \<Rightarrow> False
       | Inr (v, s) \<Rightarrow> variables (own s) ''A'' = Some (TBool True)
                       \<and> variables (own s) ''a'' = Some (TBool False))"
  by code_simp

end
